theory Spec2Isabelle
  imports Main
begin

section \<open>Data model\<close>

text \<open>
  The types of \<^verbatim>\<open>types.ts\<close>. The string-literal unions of the source become datatypes:
  \<^verbatim>\<open>PieceType = 'p' | 'n' | 'b' | 'r' | 'q' | 'k'\<close>, \<^verbatim>\<open>PieceColor = 'w' | 'b'\<close>,
  \<^verbatim>\<open>GameMode = 'friend' | 'bot' | 'online'\<close>,
  \<^verbatim>\<open>Difficulty = 'easy' | 'medium' | 'hard' | 'impossible'\<close>.
\<close>

datatype PieceType = Pawn | Knight | Bishop | Rook | Queen | King

datatype PieceColor = White | Black

datatype GameMode = Friend | Bot | Online

datatype Difficulty = Easy | Medium | Hard | Impossible

datatype View = MenuView | GameView

text \<open>\<^verbatim>\<open>interface Move { from: string; to: string; promotion?: string }\<close>\<close>

record Move =
  from_sq :: string
  to_sq :: string
  promotion :: "string option"

text \<open>An entry of the captured-piece ledger: \<^verbatim>\<open>{type: PieceType, color: PieceColor}\<close>.\<close>

type_synonym Piece = "PieceType \<times> PieceColor"

fun opposite :: "PieceColor \<Rightarrow> PieceColor" where
  "opposite White = Black"
| "opposite Black = White"

subsection \<open>The rules engine, as the program sees it\<close>

text \<open>
  \<^verbatim>\<open>App.tsx\<close> drives an object of the library class \<^verbatim>\<open>Chess\<close> (package chess.js), which
  is not part of the repository. The program is therefore modelled over any engine: a
  record of the methods the program calls, over a type \<open>'g\<close> of engine states. The
  \<^verbatim>\<open>Chess\<close> object is mutable; a method that mutates it returns the new state here.

  \<^verbatim>\<open>game.move\<close> is called with a \<^verbatim>\<open>{from, to, promotion}\<close> object (human and remote moves)
  and with a SAN string (the automated opponent). The program is written for both ways
  an engine can reject a move: the call throws (caught by \<^verbatim>\<open>try/catch\<close>) or it returns
  a falsy value (tested by \<^verbatim>\<open>if (result)\<close>). A rejected move leaves the object as it was,
  so the two rejecting outcomes carry no state. Of the move object an accepted call
  returns, the program reads \<^verbatim>\<open>color\<close> and \<^verbatim>\<open>captured\<close>.

  \<^verbatim>\<open>game.load(fen)\<close> throws on a string it does not accept and leaves the object as it
  was: \<open>None\<close>.
\<close>

datatype move_request = Squares Move | San string

record MoveResult =
  mr_color :: PieceColor
  mr_captured :: "PieceType option"

datatype 'g move_outcome = Throws | Null | Moved 'g MoveResult

record 'g Chess =
  chess_new :: 'g
  chess_move :: "'g \<Rightarrow> move_request \<Rightarrow> 'g move_outcome"
  chess_load :: "'g \<Rightarrow> string \<Rightarrow> 'g option"
  chess_fen :: "'g \<Rightarrow> string"
  chess_turn :: "'g \<Rightarrow> PieceColor"
  chess_history :: "'g \<Rightarrow> MoveResult list"
  isGameOver :: "'g \<Rightarrow> bool"
  inCheck :: "'g \<Rightarrow> bool"
  isCheckmate :: "'g \<Rightarrow> bool"
  isDraw :: "'g \<Rightarrow> bool"
  isStalemate :: "'g \<Rightarrow> bool"
  isThreefoldRepetition :: "'g \<Rightarrow> bool"
  isInsufficientMaterial :: "'g \<Rightarrow> bool"

subsection \<open>The state of the component\<close>

text \<open>
  One field for each \<^verbatim>\<open>useState\<close> of \<^verbatim>\<open>App\<close> and for the ref \<^verbatim>\<open>isBotThinking\<close>. The field
  \<open>game\<close> is the state of the \<^verbatim>\<open>Chess\<close> object a handler works on; \<open>fen\<close> is the separate
  string state the program keeps beside it. \<open>captured\<close> is the object \<^verbatim>\<open>{w: [], b: []}\<close>,
  a list of pieces for each colour.
\<close>

record 'g App =
  view :: View
  gameMode :: GameMode
  difficulty :: Difficulty
  game :: 'g
  fen :: string
  captured :: "PieceColor \<Rightarrow> Piece list"
  roomId :: string
  playerColor :: PieceColor
  isOnlineGameStarted :: bool
  joinRoomId :: string
  error :: string
  copied :: bool
  isBotThinking :: bool

subsection \<open>What a handler does to the outside\<close>

datatype sound = PlayGameEnd | PlayCheck | PlayCapture | PlayMove

datatype effect =
    Sound sound
  | Emit_create_room
  | Emit_join_room string
  | Emit_move string Move string
  | Socket_connect
  | Socket_disconnect
  | Console_log
  | Console_warn
  | Console_error
  | Clipboard_write string
  | Set_timeout nat

text \<open>How a block of code ends: it returns, or an exception leaves it.\<close>

datatype 'a completion = Returned 'a | Raised

section \<open>The handlers of \<^verbatim>\<open>App.tsx\<close>\<close>

subsection \<open>\<^verbatim>\<open>makeMove\<close>\<close>

text \<open>
  The chain \<^verbatim>\<open>if (game.isGameOver()) ... else if (game.inCheck()) ... else if
  (result.captured) ... else ...\<close> that picks the sound of a move.
\<close>

definition move_sound :: "'g Chess \<Rightarrow> 'g \<Rightarrow> MoveResult \<Rightarrow> sound" where
  "move_sound eng g r =
     (if isGameOver eng g then PlayGameEnd
      else if inCheck eng g then PlayCheck
      else if mr_captured r \<noteq> None then PlayCapture
      else PlayMove)"

text \<open>
  \<^verbatim>\<open>setCaptured(prev => ({...prev, [m.color]: [...prev[m.color], {type: m.captured,
  color: m.color === 'w' ? 'b' : 'w'}]}))\<close>: the piece is appended to the list of the
  side that moved.
\<close>

definition add_captured ::
  "MoveResult \<Rightarrow> PieceType \<Rightarrow> (PieceColor \<Rightarrow> Piece list) \<Rightarrow> (PieceColor \<Rightarrow> Piece list)" where
  "add_captured m t prev = prev(mr_color m := prev (mr_color m) @ [(t, opposite (mr_color m))])"

text \<open>
  The body of the \<^verbatim>\<open>try\<close> block of \<^verbatim>\<open>makeMove\<close>, with what follows it when the block is
  left without a \<^verbatim>\<open>return\<close> (the final \<^verbatim>\<open>return false\<close>). \<open>Raised\<close> is an exception thrown
  inside the block.
\<close>

definition makeMove_try ::
  "'g Chess \<Rightarrow> 'g App \<Rightarrow> Move \<Rightarrow> bool completion \<times> 'g App \<times> effect list" where
  "makeMove_try eng s mv =
     (if gameMode s = Online \<and> chess_turn eng (game s) \<noteq> playerColor s
      then (Returned False, s, [])
      else case chess_move eng (game s) (Squares mv) of
        Throws \<Rightarrow> (Raised, s, [])
      | Null \<Rightarrow> (Returned False, s, [])
      | Moved g' r \<Rightarrow>
          (let s1 = s\<lparr>game := g', fen := chess_fen eng g'\<rparr>;
               s2 = (case mr_captured r of
                       None \<Rightarrow> s1
                     | Some t \<Rightarrow> s1\<lparr>captured := add_captured r t (captured s1)\<rparr>)
           in (Returned True, s2,
               Sound (move_sound eng g' r) #
               (if gameMode s = Online then [Emit_move (roomId s) mv (chess_fen eng g')]
                else []))))"

text \<open>\<^verbatim>\<open>catch (e) { return false; }\<close>: whatever is thrown in the block becomes \<open>False\<close>.\<close>

definition makeMove :: "'g Chess \<Rightarrow> 'g App \<Rightarrow> Move \<Rightarrow> bool \<times> 'g App \<times> effect list" where
  "makeMove eng s mv =
     (case makeMove_try eng s mv of
        (Returned b, s', fx) \<Rightarrow> (b, s', fx)
      | (Raised, s', fx) \<Rightarrow> (False, s', fx))"

text \<open>Whether the engine takes a move: the call returns a move object.\<close>

definition accepts :: "'g Chess \<Rightarrow> 'g \<Rightarrow> move_request \<Rightarrow> bool" where
  "accepts eng g rq = (case chess_move eng g rq of Moved g' r \<Rightarrow> True | _ \<Rightarrow> False)"

subsection \<open>Rooms\<close>

text \<open>\<^verbatim>\<open>createRoom\<close>, \<^verbatim>\<open>joinRoom\<close> and the handlers of \<^verbatim>\<open>room_created\<close> and \<^verbatim>\<open>error\<close>.\<close>

definition createRoom :: "'g App \<Rightarrow> 'g App \<times> effect list" where
  "createRoom s = (s, [Emit_create_room])"

definition joinRoom :: "'g App \<Rightarrow> 'g App \<times> effect list" where
  "joinRoom s =
     (if joinRoomId s \<noteq> [] then (s\<lparr>roomId := joinRoomId s\<rparr>, [Emit_join_room (joinRoomId s)])
      else (s, []))"

definition on_room_created :: "string \<Rightarrow> 'g App \<Rightarrow> 'g App" where
  "on_room_created rid s = s\<lparr>roomId := rid, playerColor := White\<rparr>"

definition on_error :: "string \<Rightarrow> 'g App \<Rightarrow> 'g App" where
  "on_error msg s = s\<lparr>error := msg\<rparr>"

text \<open>
  \<^verbatim>\<open>handleConnect\<close>, run when the socket (re)connects: with a room id held in online mode
  it asks to join that room again.
\<close>

definition handleConnect :: "'g App \<Rightarrow> effect list" where
  "handleConnect s =
     (if roomId s \<noteq> [] \<and> gameMode s = Online then [Console_log, Emit_join_room (roomId s)]
      else [])"

text \<open>
  \<^verbatim>\<open>copyRoomId\<close>: the room id goes to the clipboard, \<^verbatim>\<open>copied\<close> is set, and a timeout of
  two seconds is requested whose callback clears \<^verbatim>\<open>copied\<close> again.
\<close>

definition copyRoomId :: "'g App \<Rightarrow> 'g App \<times> effect list" where
  "copyRoomId s = (s\<lparr>copied := True\<rparr>, [Clipboard_write (roomId s), Set_timeout 2000])"

definition copy_timeout :: "'g App \<Rightarrow> 'g App" where
  "copy_timeout s = s\<lparr>copied := False\<rparr>"

subsection \<open>The draw reason\<close>

text \<open>The \<^verbatim>\<open>drawReason\<close> computed on each render; \<^verbatim>\<open>''\<close> when the position is no draw.\<close>

definition drawReason :: "'g Chess \<Rightarrow> 'g \<Rightarrow> string" where
  "drawReason eng g =
     (if isDraw eng g then
        (if isStalemate eng g then ''Stalemate''
         else if isThreefoldRepetition eng g then ''Repetition''
         else if isInsufficientMaterial eng g then ''Insufficient Material''
         else ''Draw'')
      else [])"

subsection \<open>Remote moves and the start of an online game\<close>

text \<open>
  The sound chain of the \<^verbatim>\<open>move_received\<close> handler: it has no branch for a capture.
\<close>

definition remote_sound :: "'g Chess \<Rightarrow> 'g \<Rightarrow> sound" where
  "remote_sound eng g =
     (if isGameOver eng g then PlayGameEnd
      else if inCheck eng g then PlayCheck
      else PlayMove)"

text \<open>
  The \<^verbatim>\<open>catch\<close> block of the \<^verbatim>\<open>move_received\<close> handler: \<^verbatim>\<open>console.error\<close>,
  \<^verbatim>\<open>game.load(newFen)\<close>, \<^verbatim>\<open>setFen(newFen)\<close>. It runs on the object as the \<^verbatim>\<open>try\<close> block left
  it; when \<^verbatim>\<open>load\<close> throws here, the exception leaves the handler. \<open>fx\<close> is what the
  \<^verbatim>\<open>try\<close> block had done to the outside.
\<close>

definition move_received_catch ::
  "'g Chess \<Rightarrow> string \<Rightarrow> effect list \<Rightarrow> 'g App \<Rightarrow> unit completion \<times> 'g App \<times> effect list" where
  "move_received_catch eng newFen fx s =
     (case chess_load eng (game s) newFen of
        None \<Rightarrow> (Raised, s, fx @ [Console_error])
      | Some g \<Rightarrow> (Returned (), s\<lparr>game := g, fen := newFen\<rparr>, fx @ [Console_error]))"

text \<open>
  The \<^verbatim>\<open>try\<close> block after \<^verbatim>\<open>game.move(move)\<close> has returned: the comparison of
  \<^verbatim>\<open>game.fen()\<close> with \<^verbatim>\<open>newFen\<close>, the correcting \<^verbatim>\<open>load\<close>, \<^verbatim>\<open>setFen(game.fen())\<close> and the
  sound.
\<close>

definition move_received_verify ::
  "'g Chess \<Rightarrow> string \<Rightarrow> 'g App \<Rightarrow> unit completion \<times> 'g App \<times> effect list" where
  "move_received_verify eng newFen s =
     (if chess_fen eng (game s) \<noteq> newFen then
        (case chess_load eng (game s) newFen of
           None \<Rightarrow> move_received_catch eng newFen [Console_warn] s
         | Some g2 \<Rightarrow>
             (Returned (), s\<lparr>game := g2, fen := chess_fen eng g2\<rparr>,
              [Console_warn, Sound (remote_sound eng g2)]))
      else (Returned (), s\<lparr>fen := chess_fen eng (game s)\<rparr>,
            [Sound (remote_sound eng (game s))]))"

text \<open>
  \<^verbatim>\<open>socket.on('move_received', ({move, fen: newFen}) => ...)\<close>. The return value of
  \<^verbatim>\<open>game.move\<close> is not looked at: a falsy return goes on with the object unchanged.
\<close>

definition move_received ::
  "'g Chess \<Rightarrow> Move \<Rightarrow> string \<Rightarrow> 'g App \<Rightarrow> unit completion \<times> 'g App \<times> effect list" where
  "move_received eng mv newFen s =
     (case chess_move eng (game s) (Squares mv) of
        Throws \<Rightarrow> move_received_catch eng newFen [] s
      | Null \<Rightarrow> move_received_verify eng newFen s
      | Moved g1 r \<Rightarrow> move_received_verify eng newFen (s\<lparr>game := g1\<rparr>))"

text \<open>
  \<^verbatim>\<open>socket.on('game_start', ({white, black, fen: serverFen}) => ...)\<close>; \<open>sid\<close> is
  \<^verbatim>\<open>socket.id\<close>. \<^verbatim>\<open>if (serverFen)\<close> is false for a missing and for an empty string.
\<close>

definition game_start ::
  "'g Chess \<Rightarrow> string \<Rightarrow> string \<Rightarrow> string \<Rightarrow> string option \<Rightarrow> 'g App
     \<Rightarrow> unit completion \<times> 'g App \<times> effect list" where
  "game_start eng sid white black serverFen s =
     (let s1 = s\<lparr>isOnlineGameStarted := True, view := GameView\<rparr>;
          s2 = (if sid = black then s1\<lparr>playerColor := Black\<rparr>
                else if sid = white then s1\<lparr>playerColor := White\<rparr>
                else s1)
      in case serverFen of
           None \<Rightarrow> (Returned (), s2, [])
         | Some f \<Rightarrow>
             if f = [] then (Returned (), s2, [])
             else (case chess_load eng (game s2) f of
                     None \<Rightarrow> (Raised, s2, [])
                   | Some g \<Rightarrow> (Returned (), s2\<lparr>game := g, fen := f\<rparr>, [])))"

subsection \<open>Starting, resetting and leaving a game\<close>

text \<open>
  \<^verbatim>\<open>resetGame\<close> makes a new \<^verbatim>\<open>Chess\<close> object; the old object is not touched and stays
  with whoever still holds it (see the timers below).
\<close>

definition resetGame :: "'g Chess \<Rightarrow> 'g App \<Rightarrow> 'g App \<times> effect list" where
  "resetGame eng s =
     (s\<lparr>game := chess_new eng, fen := chess_fen eng (chess_new eng),
        captured := (\<lambda>c. []), isBotThinking := False\<rparr>,
      [Sound PlayMove])"

text \<open>\<^verbatim>\<open>startGame(mode, diff)\<close>; \<open>conn\<close> is \<^verbatim>\<open>socket.connected\<close>.\<close>

definition startGame ::
  "'g Chess \<Rightarrow> bool \<Rightarrow> GameMode \<Rightarrow> Difficulty option \<Rightarrow> 'g App \<Rightarrow> 'g App \<times> effect list" where
  "startGame eng conn mode diff s =
     (let s1 = s\<lparr>gameMode := mode\<rparr>;
          s2 = (case diff of None \<Rightarrow> s1 | Some d \<Rightarrow> s1\<lparr>difficulty := d\<rparr>);
          (s3, fx) = resetGame eng s2
      in if mode = Online then (s3, fx @ (if \<not> conn then [Socket_connect] else []))
         else (s3\<lparr>view := GameView\<rparr>, fx))"

definition returnToMenu :: "'g App \<Rightarrow> 'g App \<times> effect list" where
  "returnToMenu s =
     (let s1 = s\<lparr>view := MenuView\<rparr>
      in if gameMode s = Online
         then (s1\<lparr>roomId := [], isOnlineGameStarted := False, joinRoomId := [], error := []\<rparr>,
               [Socket_disconnect])
         else (s1, []))"

subsection \<open>The automated opponent\<close>

text \<open>
  \<^verbatim>\<open>getBestMove(game, difficulty)\<close> of \<^verbatim>\<open>utils/simpleEngine\<close> is a parameter \<open>sel\<close>: it
  returns a SAN string or nothing.

  The condition of the bot effect, and its body when the condition holds: the ref is
  set and a timeout of 500 ms is requested.
\<close>

definition bot_trigger :: "'g Chess \<Rightarrow> 'g App \<Rightarrow> bool" where
  "bot_trigger eng s =
     (gameMode s = Bot \<and> \<not> isGameOver eng (game s) \<and> chess_turn eng (game s) = Black
      \<and> \<not> isBotThinking s)"

definition bot_effect :: "'g Chess \<Rightarrow> 'g App \<Rightarrow> 'g App \<times> effect list" where
  "bot_effect eng s =
     (if bot_trigger eng s then (s\<lparr>isBotThinking := True\<rparr>, [Set_timeout 500]) else (s, []))"

text \<open>The move object \<^verbatim>\<open>{from: '', to: '', promotion: ''}\<close> the callback hands to \<^verbatim>\<open>makeMove\<close>.\<close>

definition empty_move :: Move where
  "empty_move = \<lparr>from_sq = [], to_sq = [], promotion = Some []\<rparr>"

text \<open>
  After \<^verbatim>\<open>game.move(bestMoveSan)\<close>: \<^verbatim>\<open>setFen\<close>, then the chain of sounds. Only its third
  branch reads \<^verbatim>\<open>lastMove\<close>, the last entry of \<^verbatim>\<open>game.history({verbose: true})\<close>, and only
  there the capture is recorded; with an empty history \<^verbatim>\<open>lastMove\<close> is \<^verbatim>\<open>undefined\<close> and
  reading \<^verbatim>\<open>lastMove.captured\<close> throws. The last statement of the callback clears the ref.
\<close>

definition bot_sync ::
  "'g Chess \<Rightarrow> effect list \<Rightarrow> 'g App \<Rightarrow> unit completion \<times> 'g App \<times> effect list" where
  "bot_sync eng fx s =
     (let g = game s; s1 = s\<lparr>fen := chess_fen eng g\<rparr>
      in if isGameOver eng g
           then (Returned (), s1\<lparr>isBotThinking := False\<rparr>, fx @ [Sound PlayGameEnd])
         else if inCheck eng g
           then (Returned (), s1\<lparr>isBotThinking := False\<rparr>, fx @ [Sound PlayCheck])
         else (case chess_history eng g of
                 [] \<Rightarrow> (Raised, s1, fx)
               | m # ms \<Rightarrow>
                   (let lastMove = last (m # ms)
                    in case mr_captured lastMove of
                         Some t \<Rightarrow>
                           (Returned (),
                            s1\<lparr>captured := add_captured lastMove t (captured s1),
                               isBotThinking := False\<rparr>,
                            fx @ [Sound PlayCapture])
                       | None \<Rightarrow>
                           (Returned (), s1\<lparr>isBotThinking := False\<rparr>, fx @ [Sound PlayMove]))))"

text \<open>
  The callback handed to \<^verbatim>\<open>setTimeout\<close>. \<open>d\<close> is the difficulty it captured, and \<open>game s\<close>
  the object it captured. Its \<^verbatim>\<open>makeMove\<close> is the one of the render that ran the effect,
  where \<^verbatim>\<open>gameMode\<close> was \<^verbatim>\<open>'bot'\<close>: it is run with that mode, and what it sets (\<^verbatim>\<open>fen\<close>,
  \<^verbatim>\<open>captured\<close>) lands in the current state. \<^verbatim>\<open>if (bestMoveSan)\<close> is false for no move and
  for an empty string. An exception of \<^verbatim>\<open>game.move(bestMoveSan)\<close> leaves the callback
  before the ref is cleared.
\<close>

definition bot_timeout ::
  "'g Chess \<Rightarrow> ('g \<Rightarrow> Difficulty \<Rightarrow> string option) \<Rightarrow> Difficulty \<Rightarrow> 'g App
     \<Rightarrow> unit completion \<times> 'g App \<times> effect list" where
  "bot_timeout eng sel d s =
     (case sel (game s) d of
        None \<Rightarrow> (Returned (), s\<lparr>isBotThinking := False\<rparr>, [])
      | Some san \<Rightarrow>
          if san = [] then (Returned (), s\<lparr>isBotThinking := False\<rparr>, [])
          else (case makeMove eng (s\<lparr>gameMode := Bot\<rparr>) empty_move of
                  (b, s1, fx1) \<Rightarrow>
                    (let s2 = s1\<lparr>gameMode := gameMode s\<rparr>
                     in case chess_move eng (game s2) (San san) of
                          Throws \<Rightarrow> (Raised, s2, fx1)
                        | Null \<Rightarrow> bot_sync eng fx1 s2
                        | Moved g r \<Rightarrow> bot_sync eng fx1 (s2\<lparr>game := g\<rparr>))))"

section \<open>The component over time\<close>

text \<open>
  The handlers above are the closures of one render. Between renders three things
  persist outside the component state: the \<^verbatim>\<open>Chess\<close> objects themselves (a timeout
  callback keeps the object of the render that scheduled it, also after \<^verbatim>\<open>resetGame\<close> has
  given the component a new one), the pending timeout callbacks (nothing in the program
  calls \<^verbatim>\<open>clearTimeout\<close>), and the socket.

  An object is named by a number. \<open>game (app sys)\<close> is the state of the object the
  component holds, \<open>game_ref sys\<close> its name; \<open>objects sys\<close> has the state of every
  object the component has let go of. A pending callback of the bot effect is the name
  of the object and the difficulty it captured; all bot timeouts have the same delay,
  so they run oldest first. The callbacks of \<^verbatim>\<open>copyRoomId\<close> capture nothing but the
  setter, so their number is all there is to know of them.
\<close>

record timer =
  t_ref :: nat
  t_difficulty :: Difficulty

record 'g System =
  app :: "'g App"
  game_ref :: nat
  fresh :: nat
  objects :: "nat \<rightharpoonup> 'g"
  timers :: "timer list"
  copy_timers :: nat
  socket_open :: bool
  trace :: "effect list"

text \<open>
  What can happen to the component: a click or an input on what is rendered, a move
  handed over by the board, a pending timeout that runs, an event of the socket.
  \<open>Relay_game_start\<close> carries \<^verbatim>\<open>socket.id\<close> first. \<open>Type_joinRoomId\<close> carries the text
  already in upper case.
\<close>

datatype event =
    Click_startGame GameMode "Difficulty option"
  | Click_returnToMenu
  | Click_resetGame
  | Click_back
  | Click_createRoom
  | Click_joinRoom
  | Click_copyRoomId
  | Type_joinRoomId string
  | Board_onMove Move
  | Timer_fires
  | Copy_timer_fires
  | Relay_connect
  | Relay_room_created string
  | Relay_game_start string string string "string option"
  | Relay_move_received Move string
  | Relay_error string

text \<open>The three screens of the menu view, as the render chooses between them.\<close>

definition lobby :: "'g App \<Rightarrow> bool" where
  "lobby s = (view s = MenuView \<and> roomId s = [] \<and> \<not> isOnlineGameStarted s \<and> gameMode s = Online)"

definition waiting_room :: "'g App \<Rightarrow> bool" where
  "waiting_room s =
     (view s = MenuView \<and> roomId s \<noteq> [] \<and> \<not> isOnlineGameStarted s \<and> gameMode s = Online)"

definition main_menu :: "'g App \<Rightarrow> bool" where
  "main_menu s = (view s = MenuView \<and> \<not> lobby s \<and> \<not> waiting_room s)"

text \<open>
  An input is possible when its control is rendered; a socket event is delivered while
  the socket is open; a timeout runs when one is pending.
\<close>

fun enabled :: "event \<Rightarrow> 'g System \<Rightarrow> bool" where
  "enabled (Click_startGame mode diff) sys = main_menu (app sys)"
| "enabled Click_returnToMenu sys = (view (app sys) = GameView \<or> waiting_room (app sys))"
| "enabled Click_resetGame sys = (view (app sys) = GameView)"
| "enabled Click_back sys = lobby (app sys)"
| "enabled Click_createRoom sys = lobby (app sys)"
| "enabled Click_joinRoom sys = lobby (app sys)"
| "enabled Click_copyRoomId sys = waiting_room (app sys)"
| "enabled (Type_joinRoomId v) sys = lobby (app sys)"
| "enabled (Board_onMove mv) sys = (view (app sys) = GameView)"
| "enabled Timer_fires sys = (timers sys \<noteq> [])"
| "enabled Copy_timer_fires sys = (0 < copy_timers sys)"
| "enabled Relay_connect sys = socket_open sys"
| "enabled (Relay_room_created rid) sys = socket_open sys"
| "enabled (Relay_game_start sid white black f) sys = socket_open sys"
| "enabled (Relay_move_received mv f) sys = socket_open sys"
| "enabled (Relay_error msg) sys = socket_open sys"

text \<open>
  Effects are logged; \<^verbatim>\<open>socket.connect()\<close> opens the socket and \<^verbatim>\<open>socket.disconnect()\<close>
  closes it.
\<close>

fun socket_after :: "bool \<Rightarrow> effect list \<Rightarrow> bool" where
  "socket_after b [] = b"
| "socket_after b (Socket_connect # fx) = socket_after True fx"
| "socket_after b (Socket_disconnect # fx) = socket_after False fx"
| "socket_after b (e # fx) = socket_after b fx"

definition perform :: "effect list \<Rightarrow> 'g System \<Rightarrow> 'g System" where
  "perform fx sys = sys\<lparr>socket_open := socket_after (socket_open sys) fx, trace := trace sys @ fx\<rparr>"

text \<open>\<^verbatim>\<open>setGame(newGame)\<close>: the component lets go of its object and holds a new one.\<close>

definition new_object :: "'g System \<Rightarrow> 'g System" where
  "new_object sys =
     sys\<lparr>objects := (objects sys)(game_ref sys \<mapsto> game (app sys)),
         game_ref := fresh sys, fresh := Suc (fresh sys)\<rparr>"

text \<open>
  The oldest pending callback runs, on the object it captured: the component's own
  object, or one the component has let go of. In the second case the callback's
  \<^verbatim>\<open>game.move\<close> changes that object, and its \<^verbatim>\<open>setFen\<close> and \<^verbatim>\<open>setCaptured\<close> and the ref
  change the current state.
\<close>

definition run_timer ::
  "'g Chess \<Rightarrow> ('g \<Rightarrow> Difficulty \<Rightarrow> string option) \<Rightarrow> 'g System \<Rightarrow> 'g System" where
  "run_timer eng sel sys =
     (case timers sys of
        [] \<Rightarrow> sys
      | t # ts \<Rightarrow>
          if t_ref t = game_ref sys then
            (case bot_timeout eng sel (t_difficulty t) (app sys) of
               (c, a, fx) \<Rightarrow> perform fx (sys\<lparr>app := a, timers := ts\<rparr>))
          else
            (case objects sys (t_ref t) of
               None \<Rightarrow> sys\<lparr>timers := ts\<rparr>
             | Some g \<Rightarrow>
                 (case bot_timeout eng sel (t_difficulty t) ((app sys)\<lparr>game := g\<rparr>) of
                    (c, a, fx) \<Rightarrow>
                      perform fx
                        (sys\<lparr>app := a\<lparr>game := game (app sys)\<rparr>,
                             objects := (objects sys)(t_ref t \<mapsto> game a),
                             timers := ts\<rparr>))))"

text \<open>The handler of an event. An exception that leaves a handler ends it; what it had
  set before stays.\<close>

fun handle ::
  "'g Chess \<Rightarrow> ('g \<Rightarrow> Difficulty \<Rightarrow> string option) \<Rightarrow> event \<Rightarrow> 'g System \<Rightarrow> 'g System" where
  "handle eng sel (Click_startGame mode diff) sys =
     (case startGame eng (socket_open sys) mode diff (app sys) of
        (a, fx) \<Rightarrow> perform fx ((new_object sys)\<lparr>app := a\<rparr>))"
| "handle eng sel Click_returnToMenu sys =
     (case returnToMenu (app sys) of (a, fx) \<Rightarrow> perform fx (sys\<lparr>app := a\<rparr>))"
| "handle eng sel Click_resetGame sys =
     (case resetGame eng (app sys) of (a, fx) \<Rightarrow> perform fx ((new_object sys)\<lparr>app := a\<rparr>))"
| "handle eng sel Click_back sys = sys\<lparr>app := (app sys)\<lparr>gameMode := Friend\<rparr>\<rparr>"
| "handle eng sel Click_createRoom sys =
     (case createRoom (app sys) of (a, fx) \<Rightarrow> perform fx (sys\<lparr>app := a\<rparr>))"
| "handle eng sel Click_joinRoom sys =
     (case joinRoom (app sys) of (a, fx) \<Rightarrow> perform fx (sys\<lparr>app := a\<rparr>))"
| "handle eng sel Click_copyRoomId sys =
     (case copyRoomId (app sys) of
        (a, fx) \<Rightarrow> perform fx (sys\<lparr>app := a, copy_timers := Suc (copy_timers sys)\<rparr>))"
| "handle eng sel (Type_joinRoomId v) sys = sys\<lparr>app := (app sys)\<lparr>joinRoomId := v\<rparr>\<rparr>"
| "handle eng sel (Board_onMove mv) sys =
     (case makeMove eng (app sys) mv of (b, a, fx) \<Rightarrow> perform fx (sys\<lparr>app := a\<rparr>))"
| "handle eng sel Timer_fires sys = run_timer eng sel sys"
| "handle eng sel Copy_timer_fires sys =
     sys\<lparr>app := copy_timeout (app sys), copy_timers := copy_timers sys - 1\<rparr>"
| "handle eng sel Relay_connect sys = perform (handleConnect (app sys)) sys"
| "handle eng sel (Relay_room_created rid) sys = sys\<lparr>app := on_room_created rid (app sys)\<rparr>"
| "handle eng sel (Relay_game_start sid white black f) sys =
     (case game_start eng sid white black f (app sys) of
        (c, a, fx) \<Rightarrow> perform fx (sys\<lparr>app := a\<rparr>))"
| "handle eng sel (Relay_move_received mv f) sys =
     (case move_received eng mv f (app sys) of (c, a, fx) \<Rightarrow> perform fx (sys\<lparr>app := a\<rparr>))"
| "handle eng sel (Relay_error msg) sys = sys\<lparr>app := on_error msg (app sys)\<rparr>"

text \<open>
  After a handler the component renders, and the bot effect runs again when one of its
  dependencies \<^verbatim>\<open>[fen, gameMode, difficulty, game, makeMove]\<close> has changed; \<^verbatim>\<open>makeMove\<close>
  changes with \<^verbatim>\<open>[game, gameMode, playerColor, roomId]\<close>. A timeout it requests is
  queued with the object and the difficulty of this render.
\<close>

definition deps ::
  "'g System \<Rightarrow> string \<times> GameMode \<times> Difficulty \<times> nat \<times> PieceColor \<times> string" where
  "deps sys =
     (fen (app sys), gameMode (app sys), difficulty (app sys), game_ref sys,
      playerColor (app sys), roomId (app sys))"

definition render :: "'g Chess \<Rightarrow> 'g System \<Rightarrow> 'g System \<Rightarrow> 'g System" where
  "render eng before sys =
     (if deps sys \<noteq> deps before then
        (case bot_effect eng (app sys) of
           (a, fx) \<Rightarrow>
             perform fx
               (sys\<lparr>app := a,
                    timers := timers sys @
                      (if Set_timeout 500 \<in> set fx
                       then [\<lparr>t_ref = game_ref sys, t_difficulty = difficulty (app sys)\<rparr>]
                       else [])\<rparr>))
      else sys)"

definition step ::
  "'g Chess \<Rightarrow> ('g \<Rightarrow> Difficulty \<Rightarrow> string option) \<Rightarrow> event \<Rightarrow> 'g System \<Rightarrow> 'g System" where
  "step eng sel ev sys = (if enabled ev sys then render eng sys (handle eng sel ev sys) else sys)"

fun run ::
  "'g Chess \<Rightarrow> ('g \<Rightarrow> Difficulty \<Rightarrow> string option) \<Rightarrow> event list \<Rightarrow> 'g System \<Rightarrow> 'g System" where
  "run eng sel [] sys = sys"
| "run eng sel (ev # evs) sys = run eng sel evs (step eng sel ev sys)"

text \<open>The component as it is mounted: the initial values of the \<^verbatim>\<open>useState\<close> calls.\<close>

definition initial :: "'g Chess \<Rightarrow> 'g System" where
  "initial eng =
     \<lparr>app = \<lparr>view = MenuView, gameMode = Friend, difficulty = Medium, game = chess_new eng,
             fen = chess_fen eng (chess_new eng), captured = (\<lambda>c. []), roomId = [],
             playerColor = White, isOnlineGameStarted = False, joinRoomId = [], error = [],
             copied = False, isBotThinking = False\<rparr>,
      game_ref = 0, fresh = 1, objects = Map.empty, timers = [], copy_timers = 0,
      socket_open = False, trace = []\<rparr>"

section \<open>A fragment of the rules engine for concrete runs\<close>

text \<open>
  To run the handlers on concrete inputs an engine is needed. \<open>fragment_chess\<close> is a
  finite fragment of chess: the positions of the game 1. Nf3 Nc6 2. Nd4 Nxd4 3. Nc3
  Nxc2+, and a position with the two kings alone. Each position has its FEN string; in
  each position of the line the next move of the line is accepted, as squares or in
  SAN, with the colour and the captured piece the move has in chess. Every other
  request is refused by an exception, as are strings that are not the FEN of one of
  these positions. The concrete runs below use refusals only for requests chess refuses
  too.
\<close>

datatype fpos =
  Start | After_Nf3 | After_Nc6 | After_Nd4 | After_Nxd4 | After_Nc3 | After_Nxc2 | Two_kings

type_synonym fgame = "fpos \<times> MoveResult list"

fun fragment_fen :: "fpos \<Rightarrow> string" where
  "fragment_fen Start = ''rnbqkbnr/pppppppp/8/8/8/8/PPPPPPPP/RNBQKBNR w KQkq - 0 1''"
| "fragment_fen After_Nf3 = ''rnbqkbnr/pppppppp/8/8/8/5N2/PPPPPPPP/RNBQKB1R b KQkq - 1 1''"
| "fragment_fen After_Nc6 = ''r1bqkbnr/pppppppp/2n5/8/8/5N2/PPPPPPPP/RNBQKB1R w KQkq - 2 2''"
| "fragment_fen After_Nd4 = ''r1bqkbnr/pppppppp/2n5/8/3N4/8/PPPPPPPP/RNBQKB1R b KQkq - 3 2''"
| "fragment_fen After_Nxd4 = ''r1bqkbnr/pppppppp/8/8/3n4/8/PPPPPPPP/RNBQKB1R w KQkq - 0 3''"
| "fragment_fen After_Nc3 = ''r1bqkbnr/pppppppp/8/8/3n4/2N5/PPPPPPPP/R1BQKB1R b KQkq - 1 3''"
| "fragment_fen After_Nxc2 = ''r1bqkbnr/pppppppp/8/8/8/2N5/PPnPPPPP/R1BQKB1R w KQkq - 0 4''"
| "fragment_fen Two_kings = ''8/8/8/4k3/8/8/4K3/8 w - - 0 1''"

fun fragment_turn :: "fpos \<Rightarrow> PieceColor" where
  "fragment_turn Start = White"
| "fragment_turn After_Nf3 = Black"
| "fragment_turn After_Nc6 = White"
| "fragment_turn After_Nd4 = Black"
| "fragment_turn After_Nxd4 = White"
| "fragment_turn After_Nc3 = Black"
| "fragment_turn After_Nxc2 = White"
| "fragment_turn Two_kings = White"

text \<open>The next move of the line: origin, destination, SAN, the position it leads to and
  the captured piece.\<close>

fun fragment_next :: "fpos \<Rightarrow> (string \<times> string \<times> string \<times> fpos \<times> PieceType option) option" where
  "fragment_next Start = Some (''g1'', ''f3'', ''Nf3'', After_Nf3, None)"
| "fragment_next After_Nf3 = Some (''b8'', ''c6'', ''Nc6'', After_Nc6, None)"
| "fragment_next After_Nc6 = Some (''f3'', ''d4'', ''Nd4'', After_Nd4, None)"
| "fragment_next After_Nd4 = Some (''c6'', ''d4'', ''Nxd4'', After_Nxd4, Some Knight)"
| "fragment_next After_Nxd4 = Some (''b1'', ''c3'', ''Nc3'', After_Nc3, None)"
| "fragment_next After_Nc3 = Some (''d4'', ''c2'', ''Nxc2+'', After_Nxc2, Some Pawn)"
| "fragment_next After_Nxc2 = None"
| "fragment_next Two_kings = None"

fun asks_for :: "move_request \<Rightarrow> string \<Rightarrow> string \<Rightarrow> string \<Rightarrow> bool" where
  "asks_for (Squares mv) f t san = (from_sq mv = f \<and> to_sq mv = t)"
| "asks_for (San x) f t san = (x = san)"

definition fragment_move :: "fgame \<Rightarrow> move_request \<Rightarrow> fgame move_outcome" where
  "fragment_move g rq =
     (case fragment_next (fst g) of
        None \<Rightarrow> Throws
      | Some (f, t, san, p', cap) \<Rightarrow>
          if asks_for rq f t san
          then (let r = \<lparr>mr_color = fragment_turn (fst g), mr_captured = cap\<rparr>
                in Moved (p', snd g @ [r]) r)
          else Throws)"

definition fragment_positions :: "fpos list" where
  "fragment_positions =
     [Start, After_Nf3, After_Nc6, After_Nd4, After_Nxd4, After_Nc3, After_Nxc2, Two_kings]"

definition fragment_load :: "fgame \<Rightarrow> string \<Rightarrow> fgame option" where
  "fragment_load g f =
     (case filter (\<lambda>p. fragment_fen p = f) fragment_positions of
        [] \<Rightarrow> None
      | p # ps \<Rightarrow> Some (p, []))"

definition fragment_chess :: "fgame Chess" where
  "fragment_chess =
     \<lparr>chess_new = (Start, []),
      chess_move = fragment_move,
      chess_load = fragment_load,
      chess_fen = (\<lambda>g. fragment_fen (fst g)),
      chess_turn = (\<lambda>g. fragment_turn (fst g)),
      chess_history = snd,
      isGameOver = (\<lambda>g. fst g = Two_kings),
      inCheck = (\<lambda>g. fst g = After_Nxc2),
      isCheckmate = (\<lambda>g. False),
      isDraw = (\<lambda>g. fst g = Two_kings),
      isStalemate = (\<lambda>g. False),
      isThreefoldRepetition = (\<lambda>g. False),
      isInsufficientMaterial = (\<lambda>g. fst g = Two_kings)\<rparr>"

text \<open>A selector for the fragment: it answers with the next move of the line.\<close>

definition fragment_bot :: "fgame \<Rightarrow> Difficulty \<Rightarrow> string option" where
  "fragment_bot g d =
     (case fragment_next (fst g) of None \<Rightarrow> None | Some (f, t, san, p', cap) \<Rightarrow> Some san)"

definition sq_move :: "string \<Rightarrow> string \<Rightarrow> Move" where
  "sq_move f t = \<lparr>from_sq = f, to_sq = t, promotion = None\<rparr>"

section \<open>Notions the properties are stated with\<close>

text \<open>
  The draw kind as the specification words it: the kinds are tested in the fixed order
  stalemate, threefold repetition, insufficient material; the first kind that matches is
  reported, and a generic draw when none does.
\<close>

fun first_matching :: "(bool \<times> string) list \<Rightarrow> string \<Rightarrow> string" where
  "first_matching [] other = other"
| "first_matching ((matches, kind) # rest) other =
     (if matches then kind else first_matching rest other)"

definition draw_kind_spec :: "'g Chess \<Rightarrow> 'g \<Rightarrow> string" where
  "draw_kind_spec eng g =
     first_matching
       [(isStalemate eng g, ''Stalemate''),
        (isThreefoldRepetition eng g, ''Repetition''),
        (isInsufficientMaterial eng g, ''Insufficient Material'')]
       ''Draw''"

text \<open>
  Successive calls of \<^verbatim>\<open>makeMove\<close>, each on the state the one before left; the number
  counts the calls that returned \<^verbatim>\<open>true\<close>, the successful applications.
\<close>

fun makeMoves :: "'g Chess \<Rightarrow> Move list \<Rightarrow> 'g App \<Rightarrow> nat \<times> 'g App" where
  "makeMoves eng [] s = (0, s)"
| "makeMoves eng (mv # mvs) s =
     (case makeMove eng s mv of
        (b, s', fx) \<Rightarrow>
          (case makeMoves eng mvs s' of (n, s'') \<Rightarrow> (if b then Suc n else n, s'')))"

text \<open>
  What the program relies on from the rules engine for the side to move: a move the
  engine accepts hands the move to the other side.
\<close>

definition alternating :: "'g Chess \<Rightarrow> bool" where
  "alternating eng =
     (\<forall>g rq g' r. chess_move eng g rq = Moved g' r \<longrightarrow> chess_turn eng g' = opposite (chess_turn eng g))"

text \<open>
  A string is a position the engine can load when \<^verbatim>\<open>game.load\<close> accepts it, whatever
  the object held before.
\<close>

definition loadable :: "'g Chess \<Rightarrow> string \<Rightarrow> bool" where
  "loadable eng f = (\<forall>g. chess_load eng g f \<noteq> None)"

section \<open>Concrete runs\<close>

text \<open>The squares of the moves of the line, and event lists used in concrete runs.\<close>

definition Nf3 :: Move where "Nf3 = sq_move ''g1'' ''f3''"
definition Nc6 :: Move where "Nc6 = sq_move ''b8'' ''c6''"
definition Nd4 :: Move where "Nd4 = sq_move ''f3'' ''d4''"
definition Nxd4 :: Move where "Nxd4 = sq_move ''c6'' ''d4''"
definition Nc3 :: Move where "Nc3 = sq_move ''b1'' ''c3''"

text \<open>A pawn move from e2 to e5, which the rules of chess do not have.\<close>

definition e2e5 :: Move where "e2e5 = sq_move ''e2'' ''e5''"

text \<open>The component as mounted, with the fragment as its engine.\<close>

definition mounted :: "fgame App" where
  "mounted = app (initial fragment_chess)"

text \<open>
  A game against the automated opponent in which the human has played 1. Nf3: it is
  Black's move and the callback of the bot is pending.
\<close>

definition bot_game :: "event list" where
  "bot_game = [Click_startGame Bot (Some Medium), Board_onMove Nf3]"

text \<open>
  The same game, reset while the callback is pending, and 1. Nf3 played again in the
  new game.
\<close>

definition reset_while_thinking :: "event list" where
  "reset_while_thinking = bot_game @ [Click_resetGame, Board_onMove Nf3]"

text \<open>
  An online game of the room's creator (White): the room is created and the peer has
  joined; then the game up to 2. Nd4, the peer's 1... Nc6 having come in with the
  position after it.
\<close>

definition online_opening :: "event list" where
  "online_opening =
     [Click_startGame Online None, Click_createRoom, Relay_room_created ''ROOM1'',
      Relay_game_start ''me'' ''me'' ''peer'' None]"

definition online_game :: "event list" where
  "online_game =
     online_opening @
     [Board_onMove Nf3, Relay_move_received Nc6 (fragment_fen After_Nc6), Board_onMove Nd4]"

text \<open>
  The game against the automated opponent left for the menu while the callback is
  pending, then an online session begun, a room created, and the session left from
  the waiting screen.
\<close>

definition online_after_bot :: "event list" where
  "online_after_bot =
     bot_game @ [Click_returnToMenu, Click_startGame Online None, Click_createRoom,
                 Relay_room_created ''ROOM1'']"

definition frun :: "event list \<Rightarrow> fgame System" where
  "frun evs = run fragment_chess fragment_bot evs (initial fragment_chess)"

section \<open>Sessions and continuations\<close>

text \<open>
  The continuations that can be in flight when a session is left: a pending timeout
  callback, and an event of the socket.
\<close>

fun continuation :: "event \<Rightarrow> bool" where
  "continuation Timer_fires = True"
| "continuation Copy_timer_fires = True"
| "continuation Relay_connect = True"
| "continuation (Relay_room_created rid) = True"
| "continuation (Relay_game_start sid white black f) = True"
| "continuation (Relay_move_received mv f) = True"
| "continuation (Relay_error msg) = True"
| "continuation ev = False"

text \<open>
  The state of a session: the screen, the mode and difficulty, the room, the local
  side, the started flag, the join field and the error message; with them the \<^verbatim>\<open>Chess\<close>
  object the component holds, its identity and the state of the socket. Left out are
  the \<^verbatim>\<open>fen\<close> string, the captured pieces, the ref \<^verbatim>\<open>isBotThinking\<close> and the mark
  \<^verbatim>\<open>copied\<close> of the copy button.
\<close>

definition session_fields ::
  "'g App \<Rightarrow> View \<times> GameMode \<times> Difficulty \<times> string \<times> PieceColor \<times> bool \<times> string \<times> string" where
  "session_fields s =
     (view s, gameMode s, difficulty s, roomId s, playerColor s, isOnlineGameStarted s,
      joinRoomId s, error s)"

definition session_of ::
  "'g System \<Rightarrow>
     (View \<times> GameMode \<times> Difficulty \<times> string \<times> PieceColor \<times> bool \<times> string \<times> string)
     \<times> 'g \<times> nat \<times> bool" where
  "session_of sys = (session_fields (app sys), game (app sys), game_ref sys, socket_open sys)"

text \<open>
  The objects the pending callbacks hold are never newer than the object of the
  component, and in online mode they are all older: a callback is scheduled in a game
  against the automated opponent only, and every change of mode comes with a new
  object.
\<close>

definition timers_ok :: "'g System \<Rightarrow> bool" where
  "timers_ok sys =
     (list_all (\<lambda>t. t_ref t \<le> game_ref sys) (timers sys)
      \<and> (gameMode (app sys) = Online \<longrightarrow> list_all (\<lambda>t. t_ref t < game_ref sys) (timers sys))
      \<and> game_ref sys < fresh sys)"

text \<open>
  The guard of the bot effect, as a property of a state: at most one callback of the
  automated opponent is pending, and the ref is set while one is. An event is calm when
  it does not give the component a new game while such a callback is pending.
\<close>

definition one_pending :: "'g System \<Rightarrow> bool" where
  "one_pending sys =
     (length (timers sys) \<le> 1 \<and> (isBotThinking (app sys) \<or> timers sys = []))"

fun calm :: "event \<Rightarrow> 'g System \<Rightarrow> bool" where
  "calm (Click_startGame mode diff) sys = (timers sys = [])"
| "calm Click_resetGame sys = (timers sys = [])"
| "calm ev sys = True"

fun calm_run ::
  "'g Chess \<Rightarrow> ('g \<Rightarrow> Difficulty \<Rightarrow> string option) \<Rightarrow> event list \<Rightarrow> 'g System \<Rightarrow> bool" where
  "calm_run eng sel [] sys = True"
| "calm_run eng sel (ev # evs) sys = (calm ev sys \<and> calm_run eng sel evs (step eng sel ev sys))"

section \<open>Properties of the handlers\<close>


lemma makeMove_refused:
  "\<not> accepts eng (game s) (Squares mv) \<Longrightarrow> makeMove eng s mv = (False, s, [])"
  by (simp add: makeMove_def makeMove_try_def accepts_def split: move_outcome.splits)

lemma makeMove_wrong_side:
  "gameMode s = Online \<Longrightarrow> chess_turn eng (game s) \<noteq> playerColor s \<Longrightarrow>
   makeMove eng s mv = (False, s, [])"
  by (simp add: makeMove_def makeMove_try_def)

lemma makeMove_applied:
  assumes "chess_move eng (game s) (Squares mv) = Moved g' r"
    and "gameMode s = Online \<longrightarrow> chess_turn eng (game s) = playerColor s"
  shows "makeMove eng s mv =
           (True,
            s\<lparr>game := g', fen := chess_fen eng g',
              captured := (case mr_captured r of None \<Rightarrow> captured s
                           | Some t \<Rightarrow> add_captured r t (captured s))\<rparr>,
            Sound (move_sound eng g' r) #
            (if gameMode s = Online then [Emit_move (roomId s) mv (chess_fen eng g')] else []))"
  using assms
  by (auto simp add: makeMove_def makeMove_try_def Let_def split: option.splits)

lemma makeMove_true_iff:
  "fst (makeMove eng s mv) =
     (accepts eng (game s) (Squares mv)
      \<and> (gameMode s = Online \<longrightarrow> chess_turn eng (game s) = playerColor s))"
  by (auto simp add: makeMove_def makeMove_try_def accepts_def Let_def
      split: move_outcome.splits option.splits)

lemma opposite_opposite: "opposite (opposite c) = c"
  by (cases c) simp_all

lemma alternating_fragment: "alternating fragment_chess"
  unfolding alternating_def
proof (intro allI impI)
  fix g :: fgame and rq g' r
  assume "chess_move fragment_chess g rq = Moved g' r"
  then show "chess_turn fragment_chess g' = opposite (chess_turn fragment_chess g)"
    by (cases "fst g") (auto simp add: fragment_chess_def fragment_move_def Let_def split: if_splits)
qed

lemma loadable_fragment: "loadable fragment_chess (fragment_fen p)"
  by (cases p) (simp_all add: loadable_def fragment_chess_def fragment_load_def fragment_positions_def)

lemma move_received_keeps_captured:
  "captured (fst (snd (move_received eng mv newFen s))) = captured s"
  by (simp add: move_received_def move_received_verify_def move_received_catch_def
      split: move_outcome.splits option.splits)

lemma bot_effect_ignored_while_thinking:
  "isBotThinking s \<Longrightarrow> bot_effect eng s = (s, [])"
  by (simp add: bot_effect_def bot_trigger_def)

lemma bot_timeout_no_move:
  "sel (game s) d = None \<Longrightarrow> bot_timeout eng sel d s = (Returned (), s\<lparr>isBotThinking := False\<rparr>, [])"
  by (simp add: bot_timeout_def)

section \<open>Local moves\<close>

text \<open>
  Claim C2. A move attempt handed to \<^verbatim>\<open>makeMove\<close> that the rules engine rejects, by
  throwing or by returning nothing, makes \<^verbatim>\<open>makeMove\<close> return \<^verbatim>\<open>false\<close>; the whole
  component state, the position with it, is what it was; nothing is sent to the relay
  and no sound is played. The exception of the engine is caught inside: \<^verbatim>\<open>makeMove\<close>
  has no exceptional outcome, and its \<^verbatim>\<open>try\<close> block has changed nothing and sent nothing
  when the exception leaves it.
\<close>

theorem makeMove_rejected_absorbed:
  assumes "\<not> accepts eng (game s) (Squares mv)"
  shows "makeMove eng s mv = (False, s, []) \<and> snd (makeMove_try eng s mv) = (s, [])"
  using assms
  by (simp add: makeMove_refused) (simp add: makeMove_try_def accepts_def split: move_outcome.splits)

theorem makeMove_rejected_absorbed_witness:
  "\<not> accepts fragment_chess (game mounted) (Squares e2e5)
   \<and> makeMove fragment_chess mounted e2e5 = (False, mounted, [])"
proof -
  have h: "\<not> accepts fragment_chess (game mounted) (Squares e2e5)"
    by code_simp
  show ?thesis
    using h makeMove_rejected_absorbed [OF h] by simp
qed

text \<open>
  Claim C3. In an online session, an attempt made while the side to move of the
  position is not the local player's side makes \<^verbatim>\<open>makeMove\<close> return \<^verbatim>\<open>false\<close> with the
  state unchanged and nothing sent; when the side to move is the local side, the
  attempt goes to the rules engine: \<^verbatim>\<open>makeMove\<close> returns what the engine decides, and a
  move the engine accepts is applied and sent to the relay.
\<close>

theorem makeMove_online_turn_gate:
  assumes "gameMode s = Online"
  shows "(chess_turn eng (game s) \<noteq> playerColor s \<longrightarrow> makeMove eng s mv = (False, s, []))
       \<and> (chess_turn eng (game s) = playerColor s \<longrightarrow>
            fst (makeMove eng s mv) = accepts eng (game s) (Squares mv)
            \<and> (\<forall>g' r. chess_move eng (game s) (Squares mv) = Moved g' r \<longrightarrow>
                   game (fst (snd (makeMove eng s mv))) = g'
                   \<and> snd (snd (makeMove eng s mv)) =
                       [Sound (move_sound eng g' r), Emit_move (roomId s) mv (chess_fen eng g')]))"
  using assms by (simp add: makeMove_wrong_side makeMove_true_iff makeMove_applied)

theorem makeMove_online_turn_gate_witness:
  "gameMode (app (frun online_game)) = Online
   \<and> chess_turn fragment_chess (game (app (frun online_game))) \<noteq> playerColor (app (frun online_game))
   \<and> makeMove fragment_chess (app (frun online_game)) Nxd4 = (False, app (frun online_game), [])
   \<and> gameMode (app (frun online_opening)) = Online
   \<and> chess_turn fragment_chess (game (app (frun online_opening))) = playerColor (app (frun online_opening))
   \<and> fst (makeMove fragment_chess (app (frun online_opening)) Nf3)"
proof -
  have a: "gameMode (app (frun online_game)) = Online"
    by code_simp
  have b: "chess_turn fragment_chess (game (app (frun online_game))) \<noteq> playerColor (app (frun online_game))"
    by code_simp
  have c: "gameMode (app (frun online_opening)) = Online"
    by code_simp
  have d: "chess_turn fragment_chess (game (app (frun online_opening))) = playerColor (app (frun online_opening))"
    by code_simp
  have e: "accepts fragment_chess (game (app (frun online_opening))) (Squares Nf3)"
    by code_simp
  show ?thesis
    using a b c d e
      makeMove_online_turn_gate [OF a, of fragment_chess Nxd4]
      makeMove_online_turn_gate [OF c, of fragment_chess Nf3]
    by simp
qed

text \<open>
  Claim C4, as the code has it. In a game against the automated opponent \<^verbatim>\<open>makeMove\<close>
  makes no check of the side: an attempt is applied exactly when the rules engine
  accepts it for the position, whichever side is to move, with the sound of the move
  as its only effect; it is otherwise refused with the state unchanged. The check of
  the side exists in online mode only.
\<close>

theorem makeMove_bot_engine_decides:
  assumes "gameMode s = Bot"
  shows "(case chess_move eng (game s) (Squares mv) of
            Moved g' r \<Rightarrow>
              fst (makeMove eng s mv) \<and> game (fst (snd (makeMove eng s mv))) = g'
              \<and> snd (snd (makeMove eng s mv)) = [Sound (move_sound eng g' r)]
          | Throws \<Rightarrow> makeMove eng s mv = (False, s, [])
          | Null \<Rightarrow> makeMove eng s mv = (False, s, []))"
proof (cases "chess_move eng (game s) (Squares mv)")
  case Throws
  then show ?thesis by (simp add: makeMove_refused accepts_def)
next
  case Null
  then show ?thesis by (simp add: makeMove_refused accepts_def)
next
  case (Moved g' r)
  then show ?thesis using assms by (simp add: makeMove_applied)
qed

theorem makeMove_bot_engine_decides_witness:
  "gameMode (app (frun bot_game)) = Bot
   \<and> chess_turn fragment_chess (game (app (frun bot_game))) = Black
   \<and> fst (makeMove fragment_chess (app (frun bot_game)) Nc6)
   \<and> fst (game (fst (snd (makeMove fragment_chess (app (frun bot_game)) Nc6)))) = After_Nc6
   \<and> makeMove fragment_chess (app (frun bot_game)) e2e5 = (False, app (frun bot_game), [])"
proof -
  have a: "gameMode (app (frun bot_game)) = Bot"
    by code_simp
  have b: "chess_turn fragment_chess (game (app (frun bot_game))) = Black"
    by code_simp
  have c: "chess_move fragment_chess (game (app (frun bot_game))) (Squares Nc6) =
             Moved (After_Nc6, [\<lparr>mr_color = White, mr_captured = None\<rparr>,
                                \<lparr>mr_color = Black, mr_captured = None\<rparr>])
               \<lparr>mr_color = Black, mr_captured = None\<rparr>"
    by code_simp
  have d: "chess_move fragment_chess (game (app (frun bot_game))) (Squares e2e5) = Throws"
    by code_simp
  show ?thesis
    using a b
      makeMove_bot_engine_decides [OF a, of fragment_chess Nc6]
      makeMove_bot_engine_decides [OF a, of fragment_chess e2e5]
    by (simp add: c d)
qed

text \<open>
  Claim C4, as stated, fails: in the bot game after the human's 1. Nf3 it is Black's
  move, the side of the automated opponent, and the human's attempt b8-c6 is applied.
\<close>

theorem makeMove_bot_turn_counterexample:
  "gameMode (app (frun bot_game)) = Bot
   \<and> chess_turn fragment_chess (game (app (frun bot_game))) = Black
   \<and> fst (game (app (frun bot_game))) = After_Nf3
   \<and> fst (makeMove fragment_chess (app (frun bot_game)) Nc6) = True
   \<and> fst (game (fst (snd (makeMove fragment_chess (app (frun bot_game)) Nc6)))) = After_Nc6"
  by code_simp

text \<open>
  Claim C9. After a sequence of calls of \<^verbatim>\<open>makeMove\<close> of which \<open>n\<close> were successful, the
  side to move is the side that was to move at the start when \<open>n\<close> is even, and the
  other side when \<open>n\<close> is odd; the rules engine hands the move over with every move it
  accepts, and \<^verbatim>\<open>makeMove\<close> changes the position by accepted moves only.
\<close>

theorem side_to_move_alternates:
  assumes "alternating eng" and "makeMoves eng mvs s = (n, s')"
  shows "chess_turn eng (game s') =
           (if even n then chess_turn eng (game s) else opposite (chess_turn eng (game s)))"
  using assms(2)
proof (induction mvs arbitrary: s n s')
  case Nil
  then show ?case by simp
next
  case (Cons mv mvs)
  obtain b s1 fx where mk: "makeMove eng s mv = (b, s1, fx)"
    by (cases "makeMove eng s mv") auto
  obtain k s2 where rest: "makeMoves eng mvs s1 = (k, s2)"
    by (cases "makeMoves eng mvs s1") auto
  from Cons.prems mk rest have n: "n = (if b then Suc k else k)" and s': "s2 = s'"
    by auto
  have ih: "chess_turn eng (game s') =
           (if even k then chess_turn eng (game s1) else opposite (chess_turn eng (game s1)))"
    using Cons.IH [of s1 k s'] rest s' by simp
  show ?case
  proof (cases b)
    case True
    with mk have acc: "accepts eng (game s) (Squares mv)"
      and side: "gameMode s = Online \<longrightarrow> chess_turn eng (game s) = playerColor s"
      using makeMove_true_iff [of eng s mv] by auto
    from acc obtain g' r where mv: "chess_move eng (game s) (Squares mv) = Moved g' r"
      by (auto simp add: accepts_def split: move_outcome.splits)
    from makeMove_applied [OF mv side] mk have "game s1 = g'"
      by auto
    with mv assms(1) have "chess_turn eng (game s1) = opposite (chess_turn eng (game s))"
      by (auto simp add: alternating_def)
    with ih n True show ?thesis
      by (simp add: opposite_opposite)
  next
    case False
    with mk have "s1 = s"
      using makeMove_true_iff [of eng s mv] makeMove_refused [of eng s mv]
        makeMove_wrong_side [of s eng mv]
      by (cases "accepts eng (game s) (Squares mv)") auto
    with ih n False show ?thesis
      by simp
  qed
qed

theorem side_to_move_alternates_witness:
  "alternating fragment_chess
   \<and> fst (makeMoves fragment_chess [Nf3, e2e5, Nc6, Nd4] mounted) = 3
   \<and> chess_turn fragment_chess (game mounted) = White
   \<and> chess_turn fragment_chess (game (snd (makeMoves fragment_chess [Nf3, e2e5, Nc6, Nd4] mounted))) = Black"
proof -
  have a: "fst (makeMoves fragment_chess [Nf3, e2e5, Nc6, Nd4] mounted) = 3"
    by code_simp
  have b: "chess_turn fragment_chess (game mounted) = White"
    by code_simp
  have c: "makeMoves fragment_chess [Nf3, e2e5, Nc6, Nd4] mounted =
             (3, snd (makeMoves fragment_chess [Nf3, e2e5, Nc6, Nd4] mounted))"
    using a by (metis prod.collapse)
  show ?thesis
    using a b alternating_fragment side_to_move_alternates [OF alternating_fragment c]
    by simp
qed

section \<open>Remote moves\<close>

text \<open>
  Claim C1. A \<^verbatim>\<open>move_received\<close> event carries a move and the position the sender
  declares, a FEN string the engine can load. The handler returns, and the position is
  the declared one: when the move applies and \<^verbatim>\<open>game.fen()\<close> is the declared string, the
  position is the result of the move and nothing is loaded or logged; when the move
  applies (or is refused by a falsy return) and the strings differ, a warning is logged
  and the position is the declared string loaded; when the move is refused by an
  exception, the position is the declared string loaded and \<^verbatim>\<open>fen\<close> is that string.
\<close>

theorem move_received_reconciles:
  assumes "loadable eng newFen"
  shows "\<exists>s' fx. move_received eng mv newFen s = (Returned (), s', fx) \<and>
           (case chess_move eng (game s) (Squares mv) of
              Moved g1 r \<Rightarrow>
                if chess_fen eng g1 = newFen
                then game s' = g1 \<and> fen s' = newFen \<and> Console_warn \<notin> set fx
                else chess_load eng g1 newFen = Some (game s') \<and> Console_warn \<in> set fx
            | Null \<Rightarrow>
                if chess_fen eng (game s) = newFen
                then game s' = game s \<and> fen s' = newFen \<and> Console_warn \<notin> set fx
                else chess_load eng (game s) newFen = Some (game s') \<and> Console_warn \<in> set fx
            | Throws \<Rightarrow> chess_load eng (game s) newFen = Some (game s') \<and> fen s' = newFen)"
proof -
  have ld: "\<exists>g'. chess_load eng g newFen = Some g'" for g
    using assms by (auto simp add: loadable_def)
  show ?thesis
  proof (cases "chess_move eng (game s) (Squares mv)")
    case Throws
    with ld [of "game s"] show ?thesis
      by (auto simp add: move_received_def move_received_catch_def)
  next
    case Null
    with ld [of "game s"] show ?thesis
      by (auto simp add: move_received_def move_received_verify_def)
  next
    case (Moved g1 r)
    with ld [of g1] show ?thesis
      by (auto simp add: move_received_def move_received_verify_def)
  qed
qed

theorem move_received_reconciles_witness:
  "loadable fragment_chess (fragment_fen After_Nf3)
   \<and> loadable fragment_chess (fragment_fen After_Nc6)
   \<and> fst (move_received fragment_chess Nf3 (fragment_fen After_Nf3) mounted) = Returned ()
   \<and> game (fst (snd (move_received fragment_chess Nf3 (fragment_fen After_Nf3) mounted))) =
       (After_Nf3, [\<lparr>mr_color = White, mr_captured = None\<rparr>])
   \<and> fst (move_received fragment_chess Nf3 (fragment_fen After_Nc6) mounted) = Returned ()
   \<and> game (fst (snd (move_received fragment_chess Nf3 (fragment_fen After_Nc6) mounted))) =
       (After_Nc6, [])
   \<and> fst (move_received fragment_chess e2e5 (fragment_fen After_Nf3) mounted) = Returned ()
   \<and> game (fst (snd (move_received fragment_chess e2e5 (fragment_fen After_Nf3) mounted))) =
       (After_Nf3, [])"
proof -
  let ?g1 = "(After_Nf3, [\<lparr>mr_color = White, mr_captured = None\<rparr>])"
  have l1: "loadable fragment_chess (fragment_fen After_Nf3)"
    and l2: "loadable fragment_chess (fragment_fen After_Nc6)"
    by (rule loadable_fragment)+
  have legal: "chess_move fragment_chess (game mounted) (Squares Nf3) =
                 Moved ?g1 \<lparr>mr_color = White, mr_captured = None\<rparr>"
    by code_simp
  have illegal: "chess_move fragment_chess (game mounted) (Squares e2e5) = Throws"
    by code_simp
  have same: "chess_fen fragment_chess ?g1 = fragment_fen After_Nf3"
    by code_simp
  have differs: "chess_fen fragment_chess ?g1 \<noteq> fragment_fen After_Nc6"
    by code_simp
  have load1: "chess_load fragment_chess (game mounted) (fragment_fen After_Nf3) = Some (After_Nf3, [])"
    by code_simp
  have load2: "chess_load fragment_chess ?g1 (fragment_fen After_Nc6) = Some (After_Nc6, [])"
    by code_simp
  from move_received_reconciles [OF l1, of Nf3 mounted] legal same
  have agree: "fst (move_received fragment_chess Nf3 (fragment_fen After_Nf3) mounted) = Returned ()
      \<and> game (fst (snd (move_received fragment_chess Nf3 (fragment_fen After_Nf3) mounted))) = ?g1"
    by auto
  from move_received_reconciles [OF l2, of Nf3 mounted] legal differs load2
  have desync: "fst (move_received fragment_chess Nf3 (fragment_fen After_Nc6) mounted) = Returned ()
      \<and> game (fst (snd (move_received fragment_chess Nf3 (fragment_fen After_Nc6) mounted))) =
          (After_Nc6, [])"
    by auto
  from move_received_reconciles [OF l1, of e2e5 mounted] illegal load1
  have rejected: "fst (move_received fragment_chess e2e5 (fragment_fen After_Nf3) mounted) = Returned ()
      \<and> game (fst (snd (move_received fragment_chess e2e5 (fragment_fen After_Nf3) mounted))) =
          (After_Nf3, [])"
    by auto
  from l1 l2 agree desync rejected show ?thesis
    by blast
qed

text \<open>
  Claim C6 does not hold for remote moves. In the online game after 2. Nd4 the peer's
  capture 2... Nxd4 comes in: the handler applies it, the last move of the history has
  captured a knight, and both lists of captured pieces are still empty. \<^verbatim>\<open>makeMove\<close>
  appends the captured piece for a local move (\<open>makeMove_applied\<close>); the handler of
  \<^verbatim>\<open>move_received\<close> never touches the lists (\<open>move_received_keeps_captured\<close>).
\<close>

theorem remote_capture_not_recorded:
  "last (chess_history fragment_chess
      (game (app (frun (online_game @ [Relay_move_received Nxd4 (fragment_fen After_Nxd4)]))))) =
     \<lparr>mr_color = Black, mr_captured = Some Knight\<rparr>
   \<and> captured (app (frun (online_game @ [Relay_move_received Nxd4 (fragment_fen After_Nxd4)]))) Black = []
   \<and> captured (app (frun (online_game @ [Relay_move_received Nxd4 (fragment_fen After_Nxd4)]))) White = []"
  by code_simp

text \<open>
  The callback of the automated opponent records a capture in the third branch of its
  sound chain only: after 3. Nc3 the bot's 3... Nxc2+ captures a pawn and gives check,
  and Black's list still holds the knight of move 2 alone.
\<close>

lemma bot_capture_with_check_not_recorded:
  "captured (app (frun [Click_startGame Bot (Some Medium), Board_onMove Nf3, Timer_fires,
      Board_onMove Nd4, Timer_fires, Board_onMove Nc3])) Black = [(Knight, White)]
   \<and> last (chess_history fragment_chess (game (app (frun [Click_startGame Bot (Some Medium), Board_onMove Nf3, Timer_fires,
      Board_onMove Nd4, Timer_fires, Board_onMove Nc3, Timer_fires])))) = \<lparr>mr_color = Black, mr_captured = Some Pawn\<rparr>
   \<and> captured (app (frun [Click_startGame Bot (Some Medium), Board_onMove Nf3, Timer_fires,
      Board_onMove Nd4, Timer_fires, Board_onMove Nc3, Timer_fires])) Black = [(Knight, White)]"
  by code_simp

section \<open>Rooms\<close>

text \<open>
  Claim C10. With a non-empty join field \<^verbatim>\<open>joinRoom\<close> emits \<^verbatim>\<open>join_room\<close> with that code and
  stores the code as the room id at once, changing nothing else of the state; with an
  empty field it does nothing. An error from the relay sets the error message only, so
  after a rejected join the rejected code is still the room id.
\<close>

theorem joinRoom_records_code:
  "(joinRoomId s \<noteq> [] \<longrightarrow>
      joinRoom s = (s\<lparr>roomId := joinRoomId s\<rparr>, [Emit_join_room (joinRoomId s)])
      \<and> on_error msg (fst (joinRoom s)) = s\<lparr>roomId := joinRoomId s, error := msg\<rparr>)
   \<and> (joinRoomId s = [] \<longrightarrow> joinRoom s = (s, []))"
  by (simp add: joinRoom_def on_error_def)

theorem joinRoom_records_code_witness:
  "joinRoomId (mounted\<lparr>joinRoomId := ''NOROOM''\<rparr>) \<noteq> []
   \<and> joinRoom (mounted\<lparr>joinRoomId := ''NOROOM''\<rparr>) =
       (mounted\<lparr>joinRoomId := ''NOROOM'', roomId := ''NOROOM''\<rparr>, [Emit_join_room ''NOROOM''])
   \<and> roomId (on_error ''Room not found'' (fst (joinRoom (mounted\<lparr>joinRoomId := ''NOROOM''\<rparr>)))) = ''NOROOM''
   \<and> joinRoomId mounted = []
   \<and> joinRoom mounted = (mounted, [])"
proof -
  have a: "joinRoomId mounted = []"
    by code_simp
  show ?thesis
    using a joinRoom_records_code [of "mounted\<lparr>joinRoomId := ''NOROOM''\<rparr>" "''Room not found''"]
      joinRoom_records_code [of mounted "''Room not found''"]
    by (simp add: on_error_def)
qed

section \<open>The draw reason\<close>

text \<open>
  Claim C7. For a position that is a draw, the reported reason is the first kind that
  matches in the order stalemate, threefold repetition, insufficient material, and the
  generic draw when none matches; so a position that is a draw by insufficient material
  and neither a stalemate nor a repetition, as the two kings alone are, is reported as
  insufficient material.
\<close>

theorem drawReason_priority:
  assumes "isDraw eng g"
  shows "drawReason eng g = draw_kind_spec eng g
       \<and> (isInsufficientMaterial eng g \<and> \<not> isStalemate eng g \<and> \<not> isThreefoldRepetition eng g
            \<longrightarrow> drawReason eng g = ''Insufficient Material'')"
  using assms by (simp add: drawReason_def draw_kind_spec_def)

theorem drawReason_priority_witness:
  "isDraw fragment_chess (Two_kings, [])
   \<and> drawReason fragment_chess (Two_kings, []) = draw_kind_spec fragment_chess (Two_kings, [])
   \<and> drawReason fragment_chess (Two_kings, []) = ''Insufficient Material''"
proof -
  have a: "isDraw fragment_chess (Two_kings, [])"
    by code_simp
  have b: "isInsufficientMaterial fragment_chess (Two_kings, [])
           \<and> \<not> isStalemate fragment_chess (Two_kings, [])
           \<and> \<not> isThreefoldRepetition fragment_chess (Two_kings, [])"
    by code_simp
  from drawReason_priority [OF a] b
  have "drawReason fragment_chess (Two_kings, []) = draw_kind_spec fragment_chess (Two_kings, [])"
    and "drawReason fragment_chess (Two_kings, []) = ''Insufficient Material''"
    by blast+
  with a show ?thesis
    by blast
qed

section \<open>Leaving an online session\<close>

lemma socket_after_append:
  "socket_after b (xs @ ys) = socket_after (socket_after b xs) ys"
  by (induction b xs rule: socket_after.induct) simp_all

lemma makeMove_session:
  "session_fields (fst (snd (makeMove eng s mv))) = session_fields s"
  by (simp add: makeMove_def makeMove_try_def session_fields_def Let_def
      split: move_outcome.splits option.splits)

lemma makeMove_socket:
  "socket_after b (snd (snd (makeMove eng s mv))) = b"
  by (simp add: makeMove_def makeMove_try_def Let_def
      split: move_outcome.splits option.splits)

lemma bot_sync_session:
  "session_fields (fst (snd (bot_sync eng fx s))) = session_fields s"
  by (simp add: bot_sync_def session_fields_def Let_def split: list.splits option.splits)

lemma bot_sync_socket:
  "socket_after b (snd (snd (bot_sync eng fx s))) = socket_after b fx"
  by (simp add: bot_sync_def Let_def socket_after_append split: list.splits option.splits)

lemma session_fields_update [simp]:
  "session_fields (s\<lparr>game := g\<rparr>) = session_fields s"
  "session_fields (s\<lparr>fen := f\<rparr>) = session_fields s"
  "session_fields (s\<lparr>captured := c\<rparr>) = session_fields s"
  "session_fields (s\<lparr>isBotThinking := b\<rparr>) = session_fields s"
  "session_fields (s\<lparr>copied := b\<rparr>) = session_fields s"
  by (simp_all add: session_fields_def)

lemma session_fields_mode_restored:
  "session_fields s1 = session_fields (s\<lparr>gameMode := Bot\<rparr>) \<Longrightarrow>
   session_fields (s1\<lparr>gameMode := gameMode s\<rparr>) = session_fields s"
  by (simp add: session_fields_def)

lemma bot_timeout_session:
  "session_fields (fst (snd (bot_timeout eng sel d s))) = session_fields s"
proof (cases "sel (game s) d")
  case None
  then show ?thesis by (simp add: bot_timeout_def)
next
  case (Some san)
  show ?thesis
  proof (cases "san = []")
    case True
    with Some show ?thesis by (simp add: bot_timeout_def)
  next
    case False
    obtain b s1 fx1 where mk: "makeMove eng (s\<lparr>gameMode := Bot\<rparr>) empty_move = (b, s1, fx1)"
      by (cases "makeMove eng (s\<lparr>gameMode := Bot\<rparr>) empty_move") auto
    have "session_fields s1 = session_fields (s\<lparr>gameMode := Bot\<rparr>)"
      using makeMove_session [of eng "s\<lparr>gameMode := Bot\<rparr>" empty_move] mk by simp
    then have s2: "session_fields (s1\<lparr>gameMode := gameMode s\<rparr>) = session_fields s"
      by (rule session_fields_mode_restored)
    show ?thesis
      using Some False mk s2
      by (cases "chess_move eng (game s1) (San san)")
         (simp_all add: bot_timeout_def Let_def bot_sync_session)
  qed
qed

lemma bot_timeout_socket:
  "socket_after b (snd (snd (bot_timeout eng sel d s))) = b"
  using makeMove_socket [of b eng "s\<lparr>gameMode := Bot\<rparr>" empty_move]
  by (auto simp add: bot_timeout_def Let_def bot_sync_socket
      split: option.splits prod.splits move_outcome.splits)

lemma session_fields_gameMode:
  "session_fields a = session_fields s \<Longrightarrow> gameMode a = gameMode s"
  by (simp add: session_fields_def)

lemma perform_fields [simp]:
  "app (perform fx sys) = app sys"
  "game_ref (perform fx sys) = game_ref sys"
  "fresh (perform fx sys) = fresh sys"
  "timers (perform fx sys) = timers sys"
  "objects (perform fx sys) = objects sys"
  "socket_open (perform fx sys) = socket_after (socket_open sys) fx"
  "trace (perform fx sys) = trace sys @ fx"
  by (simp_all add: perform_def)

lemma perform_timers_ok [simp]: "timers_ok (perform fx sys) = timers_ok sys"
  by (simp add: timers_ok_def)

lemma render_fields:
  "session_fields (app (render eng before sys)) = session_fields (app sys)"
  "game (app (render eng before sys)) = game (app sys)"
  "game_ref (render eng before sys) = game_ref sys"
  "fresh (render eng before sys) = fresh sys"
  "socket_open (render eng before sys) = socket_open sys"
  "objects (render eng before sys) = objects sys"
  by (simp_all add: render_def bot_effect_def)

lemma render_timers:
  "timers (render eng before sys) =
     timers sys @
     (if deps sys \<noteq> deps before \<and> bot_trigger eng (app sys)
      then [\<lparr>t_ref = game_ref sys, t_difficulty = difficulty (app sys)\<rparr>] else [])"
  by (simp add: render_def bot_effect_def)

lemma render_timers_ok:
  assumes "timers_ok sys"
  shows "timers_ok (render eng before sys)"
proof -
  have m: "gameMode (app (render eng before sys)) = gameMode (app sys)"
    using render_fields(1) [of eng before sys] by (rule session_fields_gameMode)
  show ?thesis
    using assms m
    by (auto simp add: timers_ok_def render_timers render_fields bot_trigger_def)
qed

lemma timers_ok_kept:
  assumes "timers_ok sys"
    and "game_ref sys' = game_ref sys" and "fresh sys' = fresh sys"
    and "set (timers sys') \<subseteq> set (timers sys)"
    and "gameMode (app sys') = Online \<longrightarrow> gameMode (app sys) = Online"
  shows "timers_ok sys'"
  using assms by (auto simp add: timers_ok_def list_all_iff)

lemma timers_ok_new_object:
  assumes "timers_ok sys"
  shows "timers_ok ((new_object sys)\<lparr>app := a\<rparr>)"
  using assms by (auto simp add: timers_ok_def new_object_def list_all_iff)

lemma move_received_gameMode:
  "gameMode (fst (snd (move_received eng mv f s))) = gameMode s"
  by (simp add: move_received_def move_received_verify_def move_received_catch_def
      split: move_outcome.splits option.splits)

lemma game_start_gameMode:
  "gameMode (fst (snd (game_start eng sid white black f s))) = gameMode s"
  by (simp add: game_start_def Let_def split: option.splits)

lemma set_tl_subset: "set (tl xs) \<subseteq> set xs"
  by (cases xs) auto

lemma run_timer_fields:
  "game_ref (run_timer eng sel sys) = game_ref sys"
  "fresh (run_timer eng sel sys) = fresh sys"
  "timers (run_timer eng sel sys) = tl (timers sys)"
  by (simp_all add: run_timer_def case_prod_beta split: list.splits option.splits)

lemma run_timer_session:
  "session_fields (app (run_timer eng sel sys)) = session_fields (app sys)"
proof (cases "timers sys")
  case Nil
  then show ?thesis by (simp add: run_timer_def)
next
  case (Cons t ts)
  show ?thesis
  proof (cases "t_ref t = game_ref sys")
    case True
    with Cons show ?thesis
      using bot_timeout_session [of eng sel "t_difficulty t" "app sys"]
      by (simp add: run_timer_def case_prod_beta)
  next
    case False
    show ?thesis
    proof (cases "objects sys (t_ref t)")
      case None
      with Cons False show ?thesis by (simp add: run_timer_def)
    next
      case (Some g)
      with Cons False show ?thesis
        using bot_timeout_session [of eng sel "t_difficulty t" "(app sys)\<lparr>game := g\<rparr>"]
        by (simp add: run_timer_def case_prod_beta)
    qed
  qed
qed

lemma handle_timers_ok:
  assumes "timers_ok sys"
  shows "timers_ok (handle eng sel ev sys)"
proof (cases ev)
  case (Click_startGame mode diff)
  then show ?thesis
    using timers_ok_new_object [OF assms]
    by (simp add: case_prod_beta)
next
  case Click_returnToMenu
  then show ?thesis
    by (intro timers_ok_kept [OF assms]) (simp_all add: returnToMenu_def Let_def case_prod_beta)
next
  case Click_resetGame
  then show ?thesis
    using timers_ok_new_object [OF assms]
    by (simp add: case_prod_beta)
next
  case Click_back
  then show ?thesis
    by (intro timers_ok_kept [OF assms]) simp_all
next
  case Click_createRoom
  then show ?thesis
    by (intro timers_ok_kept [OF assms]) (simp_all add: createRoom_def)
next
  case Click_joinRoom
  then show ?thesis
    by (intro timers_ok_kept [OF assms]) (simp_all add: joinRoom_def)
next
  case Click_copyRoomId
  then show ?thesis
    by (intro timers_ok_kept [OF assms]) (simp_all add: copyRoomId_def)
next
  case Copy_timer_fires
  then show ?thesis
    by (intro timers_ok_kept [OF assms]) (simp_all add: copy_timeout_def)
next
  case (Type_joinRoomId v)
  then show ?thesis
    by (intro timers_ok_kept [OF assms]) simp_all
next
  case (Board_onMove mv)
  have "gameMode (fst (snd (makeMove eng (app sys) mv))) = gameMode (app sys)"
    using makeMove_session [of eng "app sys" mv] by (rule session_fields_gameMode)
  with Board_onMove show ?thesis
    by (intro timers_ok_kept [OF assms]) (simp_all add: case_prod_beta)
next
  case Timer_fires
  have "gameMode (app (run_timer eng sel sys)) = gameMode (app sys)"
    using run_timer_session [of eng sel sys] by (rule session_fields_gameMode)
  with Timer_fires show ?thesis
    by (intro timers_ok_kept [OF assms]) (simp_all add: run_timer_fields set_tl_subset)
next
  case Relay_connect
  then show ?thesis
    by (intro timers_ok_kept [OF assms]) simp_all
next
  case (Relay_room_created rid)
  then show ?thesis
    by (intro timers_ok_kept [OF assms]) (simp_all add: on_room_created_def)
next
  case (Relay_game_start sid white black f)
  then show ?thesis
    using game_start_gameMode [of eng sid white black f "app sys"]
    by (intro timers_ok_kept [OF assms]) (simp_all add: case_prod_beta)
next
  case (Relay_move_received mv f)
  then show ?thesis
    using move_received_gameMode [of eng mv f "app sys"]
    by (intro timers_ok_kept [OF assms]) (simp_all add: case_prod_beta)
next
  case (Relay_error msg)
  then show ?thesis
    by (intro timers_ok_kept [OF assms]) (simp_all add: on_error_def)
qed

lemma step_timers_ok: "timers_ok sys \<Longrightarrow> timers_ok (step eng sel ev sys)"
  by (simp add: step_def handle_timers_ok render_timers_ok)

lemma run_timers_ok: "timers_ok sys \<Longrightarrow> timers_ok (run eng sel evs sys)"
  by (induction evs arbitrary: sys) (simp_all add: step_timers_ok)

lemma initial_timers_ok: "timers_ok (initial eng)"
  by (simp add: timers_ok_def initial_def)

lemma run_append: "run eng sel (xs @ ys) sys = run eng sel ys (run eng sel xs sys)"
  by (induction xs arbitrary: sys) simp_all

lemma run_timer_socket: "socket_open (run_timer eng sel sys) = socket_open sys"
  by (simp add: run_timer_def case_prod_beta bot_timeout_socket split: list.splits option.splits)

lemma run_timer_stale_game:
  "timers sys = t # ts \<Longrightarrow> t_ref t \<noteq> game_ref sys \<Longrightarrow>
   game (app (run_timer eng sel sys)) = game (app sys)"
  by (simp add: run_timer_def case_prod_beta split: option.splits)

lemma session_of_render: "session_of (render eng before sys) = session_of sys"
  by (simp add: session_of_def render_fields)

lemma continuation_after_leaving:
  assumes ok: "timers_ok sys" and online: "gameMode (app sys) = Online"
    and closed: "\<not> socket_open sys" and cont: "continuation ev"
  shows "session_of (step eng sel ev sys) = session_of sys"
proof (cases "enabled ev sys")
  case False
  then show ?thesis by (simp add: step_def)
next
  case True
  with closed cont consider "ev = Timer_fires" | "ev = Copy_timer_fires"
    by (cases ev) simp_all
  then show ?thesis
  proof cases
    case 1
    with True obtain t ts where ts: "timers sys = t # ts"
      by (cases "timers sys") simp_all
    with ok online have "t_ref t \<noteq> game_ref sys"
      by (auto simp add: timers_ok_def)
    with ts have "game (app (run_timer eng sel sys)) = game (app sys)"
      by (rule run_timer_stale_game)
    then have "session_of (run_timer eng sel sys) = session_of sys"
      by (simp add: session_of_def run_timer_session run_timer_socket run_timer_fields)
    with True 1 show ?thesis
      by (simp add: step_def session_of_render)
  next
    case 2
    with True show ?thesis
      by (simp add: step_def session_of_render) (simp add: session_of_def copy_timeout_def)
  qed
qed

lemma continuations_after_leaving:
  assumes "timers_ok sys" and "gameMode (app sys) = Online" and "\<not> socket_open sys"
    and "list_all continuation cs"
  shows "session_of (run eng sel cs sys) = session_of sys"
  using assms
proof (induction cs arbitrary: sys)
  case Nil
  then show ?case by simp
next
  case (Cons ev cs)
  from Cons.prems have same: "session_of (step eng sel ev sys) = session_of sys"
    by (simp add: continuation_after_leaving)
  then have "gameMode (app (step eng sel ev sys)) = Online"
    and "\<not> socket_open (step eng sel ev sys)"
    using Cons.prems(2,3) by (simp_all add: session_of_def session_fields_def)
  moreover have "timers_ok (step eng sel ev sys)"
    using Cons.prems(1) by (rule step_timers_ok)
  ultimately have "session_of (run eng sel cs (step eng sel ev sys)) = session_of (step eng sel ev sys)"
    using Cons.prems(4) by (intro Cons.IH) simp_all
  with same show ?case by simp
qed

lemma trace_render: "set (trace sys) \<subseteq> set (trace (render eng before sys))"
  by (auto simp add: render_def case_prod_beta)

lemma leave_online:
  assumes "gameMode (app sys) = Online" and "enabled Click_returnToMenu sys"
  shows "\<not> socket_open (step eng sel Click_returnToMenu sys)"
    and "Socket_disconnect \<in> set (trace (step eng sel Click_returnToMenu sys))"
    and "gameMode (app (step eng sel Click_returnToMenu sys)) = Online"
proof -
  let ?h = "handle eng sel Click_returnToMenu sys"
  have h: "\<not> socket_open ?h" "Socket_disconnect \<in> set (trace ?h)" "gameMode (app ?h) = Online"
    using assms(1) by (simp_all add: returnToMenu_def Let_def)
  have st: "step eng sel Click_returnToMenu sys = render eng sys ?h"
    using assms(2) by (simp add: step_def)
  show "\<not> socket_open (step eng sel Click_returnToMenu sys)"
    using h(1) st by (simp add: render_fields)
  show "Socket_disconnect \<in> set (trace (step eng sel Click_returnToMenu sys))"
    using h(2) st trace_render [of ?h eng sys] by auto
  show "gameMode (app (step eng sel Click_returnToMenu sys)) = Online"
    using h(3) st session_fields_gameMode [OF render_fields(1) [of eng sys ?h]] by simp
qed

text \<open>
  Claim C8, as the code has it. When an online session is left for the menu the
  socket is disconnected, so no event of the relay is handled any more. No timeout is
  cancelled. Whatever continuations run afterwards, they leave the session as it was
  left: the screen, mode, room, local side, started flag, join field and error message,
  the \<^verbatim>\<open>Chess\<close> object of the session and the closed socket. A callback of the automated
  opponent still pending from an earlier game works on the object of that game; what
  it can still write in the component are the \<^verbatim>\<open>fen\<close> string, the captured pieces and
  the ref; the callback of the copy button clears its mark.
\<close>

theorem leaving_online_session:
  assumes "gameMode (app (run eng sel evs (initial eng))) = Online"
    and "enabled Click_returnToMenu (run eng sel evs (initial eng))"
    and "list_all continuation cs"
  shows "\<not> socket_open (run eng sel (evs @ [Click_returnToMenu]) (initial eng))
       \<and> Socket_disconnect \<in> set (trace (run eng sel (evs @ [Click_returnToMenu]) (initial eng)))
       \<and> session_of (run eng sel (evs @ Click_returnToMenu # cs) (initial eng)) =
           session_of (run eng sel (evs @ [Click_returnToMenu]) (initial eng))"
proof -
  let ?sys = "run eng sel evs (initial eng)"
  let ?left = "step eng sel Click_returnToMenu ?sys"
  have left: "run eng sel (evs @ [Click_returnToMenu]) (initial eng) = ?left"
    by (simp add: run_append)
  have later: "run eng sel (evs @ Click_returnToMenu # cs) (initial eng) = run eng sel cs ?left"
    by (simp add: run_append)
  have ok: "timers_ok ?left"
    by (intro step_timers_ok run_timers_ok initial_timers_ok)
  note l = leave_online [OF assms(1,2), of eng sel]
  have "session_of (run eng sel cs ?left) = session_of ?left"
    using ok l(3) l(1) assms(3) by (rule continuations_after_leaving)
  with l(1,2) left later show ?thesis
    by simp
qed

theorem leaving_online_session_witness:
  "gameMode (app (frun online_after_bot)) = Online
   \<and> enabled Click_returnToMenu (frun online_after_bot)
   \<and> list_all continuation [Timer_fires, Relay_move_received Nf3 (fragment_fen After_Nf3)]
   \<and> \<not> socket_open (frun (online_after_bot @ [Click_returnToMenu]))
   \<and> session_of (frun (online_after_bot @
        [Click_returnToMenu, Timer_fires, Relay_move_received Nf3 (fragment_fen After_Nf3)])) =
      session_of (frun (online_after_bot @ [Click_returnToMenu]))"
proof -
  have a: "gameMode (app (run fragment_chess fragment_bot online_after_bot (initial fragment_chess))) = Online"
    by code_simp
  have b: "enabled Click_returnToMenu (run fragment_chess fragment_bot online_after_bot (initial fragment_chess))"
    by code_simp
  have c: "list_all continuation [Timer_fires, Relay_move_received Nf3 (fragment_fen After_Nf3)]"
    by simp
  show ?thesis
    using a b c leaving_online_session [OF a b c]
    by (simp add: frun_def)
qed

text \<open>
  Claim C8, as stated, fails: a game against the automated opponent is left while the
  callback is pending, an online session is begun and left from the waiting screen;
  the callback then runs and overwrites the \<^verbatim>\<open>fen\<close> string of the component with the
  position of the old game.
\<close>

theorem stale_timer_writes_after_leaving:
  "gameMode (app (frun online_after_bot)) = Online
   \<and> enabled Click_returnToMenu (frun online_after_bot)
   \<and> timers (frun (online_after_bot @ [Click_returnToMenu])) = [\<lparr>t_ref = 1, t_difficulty = Medium\<rparr>]
   \<and> fen (app (frun (online_after_bot @ [Click_returnToMenu]))) = fragment_fen Start
   \<and> fen (app (frun (online_after_bot @ [Click_returnToMenu, Timer_fires]))) = fragment_fen After_Nc6"
  by code_simp

section \<open>The automated opponent over time\<close>

text \<open>
  The guard of the bot effect works as long as no new game is begun while a callback is
  pending: then at most one callback is pending at any time, and the ref is set while
  one is.
\<close>

lemma makeMove_isBotThinking:
  "isBotThinking (fst (snd (makeMove eng s mv))) = isBotThinking s"
  by (simp add: makeMove_def makeMove_try_def Let_def split: move_outcome.splits option.splits)

lemma move_received_isBotThinking:
  "isBotThinking (fst (snd (move_received eng mv f s))) = isBotThinking s"
  by (simp add: move_received_def move_received_verify_def move_received_catch_def
      split: move_outcome.splits option.splits)

lemma game_start_isBotThinking:
  "isBotThinking (fst (snd (game_start eng sid white black f s))) = isBotThinking s"
  by (simp add: game_start_def Let_def split: option.splits)

lemma one_pending_kept:
  assumes "one_pending sys" and "timers sys' = timers sys"
    and "isBotThinking (app sys') = isBotThinking (app sys)"
  shows "one_pending sys'"
  using assms by (simp add: one_pending_def)

lemma one_pending_no_timers: "timers sys = [] \<Longrightarrow> one_pending sys"
  by (simp add: one_pending_def)

lemma handle_one_pending:
  assumes "one_pending sys" and "calm ev sys"
  shows "one_pending (handle eng sel ev sys)"
proof (cases ev)
  case (Click_startGame mode diff)
  with assms(2) show ?thesis
    by (intro one_pending_no_timers) (simp add: case_prod_beta new_object_def)
next
  case Click_resetGame
  with assms(2) show ?thesis
    by (intro one_pending_no_timers) (simp add: case_prod_beta new_object_def)
next
  case Timer_fires
  have "tl (timers sys) = []"
    using assms(1) by (cases "timers sys") (simp_all add: one_pending_def)
  with Timer_fires show ?thesis
    by (intro one_pending_no_timers) (simp add: run_timer_fields)
next
  case (Board_onMove mv)
  then show ?thesis
    by (intro one_pending_kept [OF assms(1)]) (simp_all add: case_prod_beta makeMove_isBotThinking)
next
  case (Relay_game_start sid white black f)
  then show ?thesis
    by (intro one_pending_kept [OF assms(1)]) (simp_all add: case_prod_beta game_start_isBotThinking)
next
  case (Relay_move_received mv f)
  then show ?thesis
    by (intro one_pending_kept [OF assms(1)]) (simp_all add: case_prod_beta move_received_isBotThinking)
qed (auto intro!: one_pending_kept [OF assms(1)]
      simp add: case_prod_beta returnToMenu_def Let_def createRoom_def joinRoom_def copyRoomId_def
        copy_timeout_def on_room_created_def on_error_def)

lemma render_one_pending:
  assumes "one_pending sys"
  shows "one_pending (render eng before sys)"
  using assms
  by (auto simp add: one_pending_def render_def bot_effect_def bot_trigger_def)

lemma step_one_pending:
  "one_pending sys \<Longrightarrow> calm ev sys \<Longrightarrow> one_pending (step eng sel ev sys)"
  by (simp add: step_def handle_one_pending render_one_pending)

lemma guard_holds_in_calm_runs:
  "one_pending sys \<Longrightarrow> calm_run eng sel evs sys \<Longrightarrow> one_pending (run eng sel evs sys)"
  by (induction evs arbitrary: sys) (simp_all add: step_one_pending)

lemma initial_one_pending: "one_pending (initial eng)"
  by (simp add: one_pending_def initial_def)

text \<open>
  Claim C5 does not hold across \<^verbatim>\<open>resetGame\<close>. While the ref is set the effect schedules
  nothing (\<open>bot_effect_ignored_while_thinking\<close>), a callback that gets no move clears
  the ref and changes nothing else (\<open>bot_timeout_no_move\<close>), and in calm runs at most
  one callback is pending (\<open>guard_holds_in_calm_runs\<close>). But \<^verbatim>\<open>resetGame\<close> clears the
  ref while the callback is still pending: after a reset and 1. Nf3 in the new game
  two callbacks are pending. When they have run, and a third that the first one's
  \<^verbatim>\<open>setFen\<close> brought about, the automated opponent has also played White's second move
  in the new game.
\<close>

theorem reset_while_thinking_two_pending:
  "timers (frun reset_while_thinking) =
     [\<lparr>t_ref = 1, t_difficulty = Medium\<rparr>, \<lparr>t_ref = 2, t_difficulty = Medium\<rparr>]
   \<and> fst (game (app (frun reset_while_thinking))) = After_Nf3
   \<and> chess_history fragment_chess
        (game (app (frun (reset_while_thinking @ [Timer_fires, Timer_fires, Timer_fires])))) =
      [\<lparr>mr_color = White, mr_captured = None\<rparr>, \<lparr>mr_color = Black, mr_captured = None\<rparr>,
       \<lparr>mr_color = White, mr_captured = None\<rparr>]"
  by code_simp

end
